theory Spec2Isabelle
  imports Main
begin

section \<open>Python strings\<close>

text \<open>
  A Python \<^verbatim>\<open>str\<close> is a sequence of Unicode code points: \<^verbatim>\<open>len\<close> counts code
  points and a slice cuts between them. The model is a list of code points; \<open>u\<close> turns
  an ASCII literal into such a list.
\<close>

type_synonym ustr = "nat list"

definition u :: "string \<Rightarrow> ustr" where
  "u s = map of_char s"

text \<open>
  \<^verbatim>\<open>str.isspace\<close> on one code point: U+0009..U+000D, U+001C..U+0020, U+0085, U+00A0,
  U+1680, U+2000..U+200A, U+2028, U+2029, U+202F, U+205F, U+3000. It is the white space
  that \<^verbatim>\<open>split()\<close> and \<^verbatim>\<open>strip()\<close> without arguments use.
\<close>

definition isspace :: "nat \<Rightarrow> bool" where
  "isspace c =
     ((9 \<le> c \<and> c \<le> 13) \<or> (28 \<le> c \<and> c \<le> 32) \<or> c = 133 \<or> c = 160 \<or> c = 5760 \<or>
      (8192 \<le> c \<and> c \<le> 8202) \<or> c = 8232 \<or> c = 8233 \<or> c = 8239 \<or> c = 8287 \<or>
      c = 12288)"

text \<open>\<^verbatim>\<open>s.strip()\<close>: white space removed at both ends.\<close>

definition strip :: "ustr \<Rightarrow> ustr" where
  "strip s = rev (dropWhile isspace (rev (dropWhile isspace s)))"

text \<open>
  \<^verbatim>\<open>s.split()\<close>: the maximal runs of non-space characters, left to right; \<open>w\<close> is the
  word being read.
\<close>

fun split_from :: "ustr \<Rightarrow> ustr \<Rightarrow> ustr list" where
  "split_from w [] = (if w = [] then [] else [w])"
| "split_from w (c # cs) =
     (if isspace c then (if w = [] then split_from [] cs else w # split_from [] cs)
      else split_from (w @ [c]) cs)"

definition split :: "ustr \<Rightarrow> ustr list" where
  "split s = split_from [] s"

text \<open>
  \<^verbatim>\<open>s.split('\n\n')\<close>: the pieces between successive occurrences of two line feeds,
  found left to right without overlap; empty pieces are kept. \<open>w\<close> is the piece being
  read.
\<close>

fun split_blank_from :: "ustr \<Rightarrow> ustr \<Rightarrow> ustr list" where
  "split_blank_from w [] = [w]"
| "split_blank_from w [a] = [w @ [a]]"
| "split_blank_from w (a # b # cs) =
     (if a = 10 \<and> b = 10 then w # split_blank_from [] cs
      else split_blank_from (w @ [a]) (b # cs))"

definition split_blank :: "ustr \<Rightarrow> ustr list" where
  "split_blank s = split_blank_from [] s"

text \<open>\<^verbatim>\<open>sep.join(xs)\<close>.\<close>

fun join :: "ustr \<Rightarrow> ustr list \<Rightarrow> ustr" where
  "join sep [] = []"
| "join sep [x] = x"
| "join sep (x # y # ys) = x @ sep @ join sep (y # ys)"

text \<open>\<^verbatim>\<open>s.replace(old, new)\<close> for a pattern \<open>old\<close> of one code point.\<close>

definition replace :: "nat \<Rightarrow> ustr \<Rightarrow> ustr \<Rightarrow> ustr" where
  "replace old new s = concat (map (\<lambda>c. if c = old then new else [c]) s)"

text \<open>\<^verbatim>\<open>range(0, n, step)\<close> for a positive step; \<^verbatim>\<open>xs[i:j]\<close> for \<open>0 \<le> i \<le> j\<close>.\<close>

definition range_step :: "nat \<Rightarrow> nat \<Rightarrow> nat list" where
  "range_step n step = map (\<lambda>k. k * step) [0..<(n + step - 1) div step]"

definition slice :: "'a list \<Rightarrow> nat \<Rightarrow> nat \<Rightarrow> 'a list" where
  "slice xs i j = take (j - i) (drop i xs)"

section \<open>The chunk list of \<^verbatim>\<open>translate_text\<close>\<close>

definition chunk_size :: nat where
  "chunk_size = 15000"

text \<open>
  The list comprehension: the character windows \<^verbatim>\<open>text[i:i + n]\<close> at the offsets
  \<^verbatim>\<open>range(0, len(text), n)\<close>.
\<close>

definition char_chunks :: "nat \<Rightarrow> ustr \<Rightarrow> ustr list" where
  "char_chunks n text = map (\<lambda>i. slice text i (i + n)) (range_step (length text) n)"

text \<open>
  The loop that follows it: for every offset of \<^verbatim>\<open>range(0, len(words), n)\<close>, the
  words \<^verbatim>\<open>words[i:i + n]\<close> joined by one space.
\<close>

definition word_chunks :: "nat \<Rightarrow> ustr list \<Rightarrow> ustr list" where
  "word_chunks n words =
     map (\<lambda>i. join [32] (slice words i (i + n))) (range_step (length words) n)"

text \<open>
  The list \<^verbatim>\<open>chunks\<close> as the translation loop finds it: the character windows, with
  the word chunks appended to the same list.
\<close>

definition chunks_of :: "nat \<Rightarrow> ustr \<Rightarrow> ustr list" where
  "chunks_of n text = char_chunks n text @ word_chunks n (split text)"

section \<open>Exceptions, standard output and the collaborators\<close>

text \<open>
  The exceptions the program can meet: the two it raises itself with their messages,
  the two that reading \<^verbatim>\<open>response.choices[0].message.content\<close> and slicing it can
  raise, and any exception raised inside a library it calls (pypdf, openai, fpdf),
  named by a text.
\<close>

datatype exn =
    Exception string
  | ValueError string
  | IndexError
  | TypeError
  | LibraryError string

text \<open>
  Standard output: one constructor for each \<^verbatim>\<open>print\<close> of the source, carrying the
  values its f-string interpolates. \<open>Rule\<close> is the line of sixty equals signs and
  \<open>Blank\<close> the empty line of \<^verbatim>\<open>print()\<close>; the closing rule of \<^verbatim>\<open>translate_pdf\<close>,
  printed after a line feed, is \<open>Blank\<close> followed by \<open>Rule\<close>.
\<close>

datatype line =
    Initialized
  | ExtractingText ustr
  | ReadingPage nat nat
  | TranslatingTo ustr
  | SplitInto nat
  | TranslatingChunk nat nat
  | Preview ustr
  | TranslationComplete
  | CreatingPDF ustr
  | SkippedParagraph exn
  | PDFCreated
  | ParagraphsAdded nat
  | ParagraphsSkipped nat
  | Rule
  | Starting
  | Extracted nat
  | Blank
  | Complete
  | CheckFolder

text \<open>
  The request of one call of \<^verbatim>\<open>client.chat.completions.create\<close>: the model's name
  and the messages as (role, content) pairs. The call also passes the constant
  \<^verbatim>\<open>temperature=0.3\<close>, which the model leaves out.
\<close>

record chat_request =
  req_model :: ustr
  messages :: "(ustr \<times> ustr) list"

text \<open>
  What one exchange with the remote service gives, a request sent and its outcome
  received: a response, whose \<^verbatim>\<open>choices\<close> are listed by the \<^verbatim>\<open>message.content\<close> of
  each, which may be \<^verbatim>\<open>None\<close>; a failure after which the client sends the request again
  while it has retries left (a connection error, a timeout, a status 408, 409, 429 or
  5xx), with the exception the client raises for it; or a failure for which the client
  raises at once (any other status).
\<close>

datatype attempt =
    Answer "ustr option list"
  | Retryable exn
  | Fatal exn

text \<open>
  What a call of \<^verbatim>\<open>client.chat.completions.create\<close> gives back: an exception, or the
  \<^verbatim>\<open>choices\<close> of the response.
\<close>

type_synonym completion = "exn + ustr option list"

text \<open>
  The collaborators. The remote service has a state \<open>'s\<close> of its own, which an
  exchange may change, and \<open>chat_post\<close> is one exchange with it; the FPDF object is a
  value of \<open>'p\<close>, and \<open>fpdf_new\<close> is the object after
  \<^verbatim>\<open>FPDF()\<close>, \<^verbatim>\<open>add_page\<close>, \<^verbatim>\<open>set_auto_page_break\<close> and \<^verbatim>\<open>set_font\<close>.
  \<open>pdf_reader\<close> is \<^verbatim>\<open>PdfReader(path)\<close>: an exception, or the pages, each given by what
  its \<^verbatim>\<open>extract_text()\<close> does. \<open>fpdf_multi_cell\<close> returns the exception it raised, if
  any, and the object as the call left it; \<open>fpdf_ln\<close> only moves the cursor.
\<close>

record ('s, 'p) env =
  getenv_key :: "ustr option"
  pdf_reader :: "ustr \<Rightarrow> exn + (exn + ustr) list"
  chat_post :: "'s \<Rightarrow> chat_request \<Rightarrow> attempt \<times> 's"
  fpdf_new :: 'p
  fpdf_multi_cell :: "'p \<Rightarrow> ustr \<Rightarrow> exn option \<times> 'p"
  fpdf_ln :: "'p \<Rightarrow> 'p"
  fpdf_output :: "'p \<Rightarrow> ustr \<Rightarrow> exn option"

text \<open>
  Everything the program changes outside itself: the lines printed, the state of the
  remote service, the requests sent to it (oldest first, a request that the client
  sends again being listed again) and the documents written by \<^verbatim>\<open>pdf.output\<close> with
  their paths.
\<close>

record ('s, 'p) world =
  stdout :: "line list"
  service :: 's
  sent :: "chat_request list"
  files :: "(ustr \<times> 'p) list"

definition print :: "line \<Rightarrow> ('s, 'p) world \<Rightarrow> ('s, 'p) world" where
  "print l w = w\<lparr>stdout := stdout w @ [l]\<rparr>"

definition prints :: "line list \<Rightarrow> ('s, 'p) world \<Rightarrow> ('s, 'p) world" where
  "prints ls w = w\<lparr>stdout := stdout w @ ls\<rparr>"

section \<open>\<^verbatim>\<open>PDFTranslator.__init__\<close>\<close>

record translator =
  api_key :: ustr
  model :: ustr

text \<open>\<^verbatim>\<open>a or b\<close> on values that are \<^verbatim>\<open>None\<close> or a string: \<open>a\<close> when it is a non-empty string.\<close>

definition py_or :: "ustr option \<Rightarrow> ustr option \<Rightarrow> ustr option" where
  "py_or a b = (case a of None \<Rightarrow> b | Some s \<Rightarrow> if s = [] then b else a)"

definition init :: "ustr option \<Rightarrow> ('s, 'p) env \<Rightarrow> ('s, 'p) world \<Rightarrow> (exn + translator) \<times> ('s, 'p) world" where
  "init key e w =
     (case py_or key (getenv_key e) of
        None \<Rightarrow> (Inl (Exception ''API key is not found. Set it in .env file.''), w)
      | Some k \<Rightarrow>
          if k = [] then (Inl (Exception ''API key is not found. Set it in .env file.''), w)
          else (Inr \<lparr>api_key = k, model = u ''gpt-4o-mini''\<rparr>, print Initialized w))"

section \<open>\<^verbatim>\<open>extract_text\<close>\<close>

text \<open>The loop over \<^verbatim>\<open>enumerate(reader.pages, 1)\<close>; \<open>n\<close> is \<^verbatim>\<open>len(reader.pages)\<close>.\<close>

fun read_pages :: "nat \<Rightarrow> (nat \<times> (exn + ustr)) list \<Rightarrow> ustr \<Rightarrow> ('s, 'p) world \<Rightarrow> (exn + ustr) \<times> ('s, 'p) world" where
  "read_pages n [] text w = (Inr text, w)"
| "read_pages n ((page_num, page) # ps) text w =
     (case page of
        Inl x \<Rightarrow> (Inl x, print (ReadingPage page_num n) w)
      | Inr page_text \<Rightarrow>
          read_pages n ps (text @ page_text @ [10, 10]) (print (ReadingPage page_num n) w))"

definition extract_text :: "('s, 'p) env \<Rightarrow> ustr \<Rightarrow> ('s, 'p) world \<Rightarrow> (exn + ustr) \<times> ('s, 'p) world" where
  "extract_text e pdf_path w =
     (case pdf_reader e pdf_path of
        Inl x \<Rightarrow> (Inl x, print (ExtractingText pdf_path) w)
      | Inr pages \<Rightarrow>
          (case read_pages (length pages) (enumerate 1 pages) [] (print (ExtractingText pdf_path) w) of
             (Inl x, w') \<Rightarrow> (Inl x, w')
           | (Inr text, w') \<Rightarrow> (Inr (strip text), w')))"

section \<open>\<^verbatim>\<open>translate_text\<close>\<close>

text \<open>\<^verbatim>\<open>str(n)\<close> for a natural number: its decimal digits.\<close>

fun str_nat :: "nat \<Rightarrow> ustr" where
  "str_nat n = (if n < 10 then [48 + n] else str_nat (n div 10) @ [48 + n mod 10])"

declare str_nat.simps [simp del]

definition prompt :: "ustr \<Rightarrow> nat \<Rightarrow> nat \<Rightarrow> ustr \<Rightarrow> ustr" where
  "prompt target_language i n chunk =
     u ''Translate the following text to '' @ target_language @ u ''. This is part '' @
     str_nat i @ u '' of '' @ str_nat n @
     u ''. Maintain the original formatting and do NOT add any introductory text:'' @
     [10, 10] @ chunk"

definition system_content :: "ustr \<Rightarrow> ustr" where
  "system_content target_language =
     u ''You are a professional translator. Translate text accurately to '' @
     target_language @ u ''. Output ONLY the translation, no explanations or notes.''"

text \<open>The request built for chunk number \<open>i\<close> of \<open>n\<close>.\<close>

definition request :: "translator \<Rightarrow> ustr \<Rightarrow> nat \<Rightarrow> nat \<times> ustr \<Rightarrow> chat_request" where
  "request tr target_language n ic =
     \<lparr>req_model = model tr,
      messages = [(u ''system'', system_content target_language),
                  (u ''user'', prompt target_language (fst ic) n (snd ic))]\<rparr>"

text \<open>
  The client is built by \<^verbatim>\<open>OpenAI(api_key=self.api_key)\<close>, with the defaults of the
  library for everything else: it sends a request again after a retryable failure, at
  most \<^verbatim>\<open>max_retries = 2\<close> times for one call. The waiting between two attempts is not
  modelled.
\<close>

definition max_retries :: nat where
  "max_retries = 2"

text \<open>One exchange: the request is sent and the service moves on.\<close>

definition exchange :: "('s, 'p) env \<Rightarrow> chat_request \<Rightarrow> ('s, 'p) world \<Rightarrow> attempt \<times> ('s, 'p) world" where
  "exchange e r w =
     (case chat_post e (service w) r of
        (a, s) \<Rightarrow> (a, w\<lparr>service := s, sent := sent w @ [r]\<rparr>))"

text \<open>
  One call of \<^verbatim>\<open>client.chat.completions.create\<close> with so many retries left: the
  response of the first exchange that gives one, or the exception of the first failure
  that is not retried.
\<close>

fun create :: "('s, 'p) env \<Rightarrow> nat \<Rightarrow> chat_request \<Rightarrow> ('s, 'p) world \<Rightarrow> completion \<times> ('s, 'p) world" where
  "create e 0 r w =
     (case exchange e r w of
        (Answer choices, w') \<Rightarrow> (Inr choices, w')
      | (Fatal x, w') \<Rightarrow> (Inl x, w')
      | (Retryable x, w') \<Rightarrow> (Inl x, w'))"
| "create e (Suc remaining) r w =
     (case exchange e r w of
        (Answer choices, w') \<Rightarrow> (Inr choices, w')
      | (Fatal x, w') \<Rightarrow> (Inl x, w')
      | (Retryable x, w') \<Rightarrow> create e remaining r w')"

text \<open>
  \<^verbatim>\<open>response.choices[0].message.content\<close>, then the slice \<^verbatim>\<open>translated_text[:50]\<close> of
  the preview: an empty \<^verbatim>\<open>choices\<close> raises IndexError, and a content that is
  \<^verbatim>\<open>None\<close> raises TypeError when it is sliced.
\<close>

definition first_content :: "completion \<Rightarrow> exn + ustr" where
  "first_content r =
     (case r of
        Inl x \<Rightarrow> Inl x
      | Inr [] \<Rightarrow> Inl IndexError
      | Inr (None # _) \<Rightarrow> Inl TypeError
      | Inr (Some t # _) \<Rightarrow> Inr t)"

text \<open>
  The loop over \<^verbatim>\<open>enumerate(chunks, 1)\<close>: \<open>n\<close> is \<^verbatim>\<open>len(chunks)\<close> and \<open>acc\<close> is
  \<^verbatim>\<open>translated_chunks\<close>. An exception leaves the loop and the function at once.
\<close>

fun translate_chunks :: "('s, 'p) env \<Rightarrow> translator \<Rightarrow> ustr \<Rightarrow> nat \<Rightarrow> (nat \<times> ustr) list \<Rightarrow> ustr list \<Rightarrow> ('s, 'p) world \<Rightarrow> (exn + ustr list) \<times> ('s, 'p) world" where
  "translate_chunks e tr lang n [] acc w = (Inr acc, w)"
| "translate_chunks e tr lang n (ic # rest) acc w =
     (case create e max_retries (request tr lang n ic) (print (TranslatingChunk (fst ic) n) w) of
        (response, w') \<Rightarrow>
          (case first_content response of
             Inl x \<Rightarrow> (Inl x, w')
           | Inr translated_text \<Rightarrow>
               translate_chunks e tr lang n rest (acc @ [translated_text])
                 (print (Preview (take 50 translated_text)) w')))"

definition translate_text :: "('s, 'p) env \<Rightarrow> translator \<Rightarrow> ustr \<Rightarrow> ustr \<Rightarrow> ('s, 'p) world \<Rightarrow> (exn + ustr) \<times> ('s, 'p) world" where
  "translate_text e tr text target_language w =
     (let chunks = chunks_of chunk_size text;
          w1 = prints [TranslatingTo target_language, SplitInto (length chunks)] w
      in case translate_chunks e tr target_language (length chunks) (enumerate 1 chunks) [] w1 of
           (Inl x, w') \<Rightarrow> (Inl x, w')
         | (Inr translated_chunks, w') \<Rightarrow>
             (Inr (join [10, 10] translated_chunks), print TranslationComplete w'))"

section \<open>\<^verbatim>\<open>create_pdf\<close>\<close>

text \<open>The chain of six \<^verbatim>\<open>replace\<close> calls, in the order of the source.\<close>

definition clean_para :: "ustr \<Rightarrow> ustr" where
  "clean_para para =
     replace 0x2026 (u ''...'')
       (replace 0x2014 (u ''-'')
         (replace 0x201D [34]
           (replace 0x201C [34]
             (replace 0x2019 [39]
               (replace 0x2018 [39] para)))))"

text \<open>
  The loop over the paragraphs. The state is the FPDF object, \<^verbatim>\<open>lines_added\<close>,
  \<^verbatim>\<open>lines_skipped\<close> and the world; every exception of the \<^verbatim>\<open>try\<close> block is caught.
\<close>

fun add_paragraphs :: "('s, 'p) env \<Rightarrow> ustr list \<Rightarrow> 'p \<times> nat \<times> nat \<times> ('s, 'p) world \<Rightarrow> 'p \<times> nat \<times> nat \<times> ('s, 'p) world" where
  "add_paragraphs e [] st = st"
| "add_paragraphs e (para # ps) (pdf, lines_added, lines_skipped, w) =
     (if strip para = [] then add_paragraphs e ps (pdf, lines_added, lines_skipped, w)
      else
        (case fpdf_multi_cell e pdf (clean_para para) of
           (None, pdf') \<Rightarrow>
             add_paragraphs e ps (fpdf_ln e pdf', lines_added + 1, lines_skipped, w)
         | (Some x, pdf') \<Rightarrow>
             add_paragraphs e ps
               (pdf', lines_added, lines_skipped + 1, print (SkippedParagraph x) w)))"

definition create_pdf :: "('s, 'p) env \<Rightarrow> ustr \<Rightarrow> ustr \<Rightarrow> ('s, 'p) world \<Rightarrow> (exn + unit) \<times> ('s, 'p) world" where
  "create_pdf e text output_path w =
     (case add_paragraphs e (split_blank text) (fpdf_new e, 0, 0, print (CreatingPDF output_path) w) of
        (pdf, lines_added, lines_skipped, w') \<Rightarrow>
          (case fpdf_output e pdf output_path of
             Some x \<Rightarrow> (Inl x, w')
           | None \<Rightarrow>
               (Inr (),
                prints
                  ([PDFCreated, ParagraphsAdded lines_added] @
                   (if lines_skipped > 0 then [ParagraphsSkipped lines_skipped] else []))
                  (w'\<lparr>files := files w' @ [(output_path, pdf)]\<rparr>))))"

section \<open>\<^verbatim>\<open>translate_pdf\<close> and the script\<close>

definition translate_pdf :: "('s, 'p) env \<Rightarrow> translator \<Rightarrow> ustr \<Rightarrow> ustr \<Rightarrow> ustr \<Rightarrow> ('s, 'p) world \<Rightarrow> (exn + ustr) \<times> ('s, 'p) world" where
  "translate_pdf e tr input_path output_path target_language w =
     (case extract_text e input_path (prints [Rule, Starting, Rule] w) of
        (Inl x, w1) \<Rightarrow> (Inl x, w1)
      | (Inr text, w1) \<Rightarrow>
          if text = [] then (Inl (ValueError ''No text found in PDF!''), print (Extracted (length text)) w1)
          else
            (case translate_text e tr text target_language (print (Extracted (length text)) w1) of
               (Inl x, w2) \<Rightarrow> (Inl x, w2)
             | (Inr translated_text, w2) \<Rightarrow>
                 (case create_pdf e translated_text output_path (print Blank w2) of
                    (Inl x, w3) \<Rightarrow> (Inl x, w3)
                  | (Inr _, w3) \<Rightarrow>
                      (Inr translated_text, prints [Blank, Rule, Complete, Rule] w3))))"

text \<open>The \<^verbatim>\<open>__main__\<close> block of the module.\<close>

definition main :: "('s, 'p) env \<Rightarrow> ('s, 'p) world \<Rightarrow> (exn + unit) \<times> ('s, 'p) world" where
  "main e w =
     (case init None e w of
        (Inl x, w1) \<Rightarrow> (Inl x, w1)
      | (Inr translator, w1) \<Rightarrow>
          (case translate_pdf e translator (u ''test.pdf'') (u ''test_spanish.pdf'') (u ''Spanish'') w1 of
             (Inl x, w2) \<Rightarrow> (Inl x, w2)
           | (Inr _, w2) \<Rightarrow> (Inr (), print CheckFolder w2)))"

section \<open>Notions used to state the properties\<close>



text \<open>
  The six characters the renderer normalises: the curly quotes U+2018, U+2019, U+201C and
  U+201D, the em-dash U+2014 and the ellipsis U+2026.
\<close>

definition smart_punctuation :: "nat \<Rightarrow> bool" where
  "smart_punctuation c =
     (c = 0x2018 \<or> c = 0x2019 \<or> c = 0x201C \<or> c = 0x201D \<or> c = 0x2014 \<or> c = 0x2026)"

text \<open>
  The plain-ASCII substitute of one character, as a table: an apostrophe for a single
  curly quote, a double quote for a double one, a hyphen for the em-dash, three full
  stops for the ellipsis; any other character stands for itself.
\<close>

definition ascii_substitute :: "nat \<Rightarrow> ustr" where
  "ascii_substitute c =
     (if c = 0x2018 \<or> c = 0x2019 then [39]
      else if c = 0x201C \<or> c = 0x201D then [34]
      else if c = 0x2014 then [45]
      else if c = 0x2026 then [46, 46, 46]
      else [c])"

subsection \<open>A concrete environment\<close>

text \<open>
  A service that counts the requests it has received and answers request number
  \<open>k + 1\<close> with the text T followed by that number, or, when \<open>failing = Some k\<close>,
  refuses it with the status 429.
\<close>

definition demo_service :: "nat option \<Rightarrow> nat \<Rightarrow> chat_request \<Rightarrow> attempt \<times> nat" where
  "demo_service failing k r =
     (if failing = Some k then Retryable (LibraryError ''RateLimitError'')
      else Answer [Some (u ''T'' @ str_nat (Suc k))], Suc k)"

text \<open>
  An FPDF object reduced to the text blocks laid out so far, with a font that has the
  Latin-1 characters only: \<^verbatim>\<open>multi_cell\<close> raises on any other character and lays
  nothing out then.
\<close>

definition latin1_multi_cell :: "ustr list \<Rightarrow> ustr \<Rightarrow> exn option \<times> ustr list" where
  "latin1_multi_cell pdf t =
     (if list_all (\<lambda>c. c < 256) t then (None, pdf @ [t])
      else (Some (LibraryError ''FPDFUnicodeEncodingException''), pdf))"

definition demo_env :: "nat option \<Rightarrow> ustr option \<Rightarrow> (exn + ustr) list \<Rightarrow> (nat, ustr list) env" where
  "demo_env failing key pages =
     \<lparr>getenv_key = key, pdf_reader = (\<lambda>path. Inr pages), chat_post = demo_service failing,
      fpdf_new = [], fpdf_multi_cell = latin1_multi_cell, fpdf_ln = (\<lambda>pdf. pdf),
      fpdf_output = (\<lambda>pdf path. None)\<rparr>"

text \<open>
  A service that follows a script: request number \<open>k + 1\<close> gets the outcome number
  \<open>k + 1\<close> of the script, and a request beyond the script is answered as by the service
  above.
\<close>

definition scripted_service :: "attempt list \<Rightarrow> nat \<Rightarrow> chat_request \<Rightarrow> attempt \<times> nat" where
  "scripted_service script k r =
     (case drop k script of
        [] \<Rightarrow> Answer [Some (u ''T'' @ str_nat (Suc k))]
      | a # _ \<Rightarrow> a, Suc k)"

definition scripted_env :: "attempt list \<Rightarrow> (nat, ustr list) env" where
  "scripted_env script = (demo_env None None [])\<lparr>chat_post := scripted_service script\<rparr>"

text \<open>
  A service that translates nothing: it answers every request with the text that
  follows the first blank line of the user message, which is the chunk.
\<close>

definition echo_service :: "nat \<Rightarrow> chat_request \<Rightarrow> attempt \<times> nat" where
  "echo_service k r =
     (Answer [Some (join [10, 10] (tl (split_blank (snd (last (messages r))))))], Suc k)"

definition echo_env :: "(nat, ustr list) env" where
  "echo_env = (demo_env None None [])\<lparr>chat_post := echo_service\<rparr>"

definition demo_translator :: translator where
  "demo_translator = \<lparr>api_key = u ''sk-test'', model = u ''gpt-4o-mini''\<rparr>"

definition w0 :: "(nat, ustr list) world" where
  "w0 = \<lparr>stdout = [], service = 0, sent = [], files = []\<rparr>"

section \<open>Facts about strings and chunks\<close>

lemma concat_windows:
  "concat (map (\<lambda>k. slice s (k * n) (k * n + n)) [0..<m]) = take (m * n) s"
proof (induction m)
  case 0
  then show ?case by simp
next
  case (Suc m)
  have "take (Suc m * n) s = take (m * n + n) s" by (simp add: add.commute)
  also have "\<dots> = take (m * n) s @ take n (drop (m * n) s)" by (rule take_add)
  finally show ?case using Suc by (simp add: slice_def)
qed

lemma windows_cover: "0 < n \<Longrightarrow> L \<le> ((L + n - 1) div n) * (n::nat)"
proof -
  assume n: "0 < n"
  have "(L + n - 1) div n * n + (L + n - 1) mod n = L + n - 1" by simp
  moreover have "(L + n - 1) mod n < n" using n by simp
  ultimately show ?thesis by linarith
qed

text \<open>The character windows alone do reconstruct the text, for every window size.\<close>

lemma char_chunks_concat: "0 < n \<Longrightarrow> concat (char_chunks n s) = s"
  using concat_windows [of s n "(length s + n - 1) div n"] windows_cover [of n "length s"]
  by (simp add: char_chunks_def range_step_def comp_def)

lemma split_from_word:
  "\<not> isspace c \<Longrightarrow>
   split_from w (replicate k c) = (if w @ replicate k c = [] then [] else [w @ replicate k c])"
proof (induction k arbitrary: w)
  case 0
  then show ?case by simp
next
  case (Suc k)
  then show ?case by (simp add: replicate_app_Cons_same)
qed

lemma split_word: "\<not> isspace c \<Longrightarrow> 0 < k \<Longrightarrow> split (replicate k c) = [replicate k c]"
  by (simp add: split_def split_from_word)

lemma range_step_1: "0 < L \<Longrightarrow> L \<le> n \<Longrightarrow> range_step L n = [0]"
proof -
  assume a: "0 < L" "L \<le> n"
  have "(L + n - 1) div n = 1"
    by (rule div_nat_eqI) (use a in auto)
  then show ?thesis by (simp add: range_step_def)
qed

lemma range_step_2: "n < L \<Longrightarrow> L \<le> 2 * n \<Longrightarrow> range_step L n = [0, n]"
proof -
  assume a: "n < L" "L \<le> 2 * n"
  have "(L + n - 1) div n = 2"
    by (rule div_nat_eqI) (use a in auto)
  then show ?thesis by (simp add: range_step_def upt_rec numeral_2_eq_2)
qed

lemma range_step_3: "2 * n < L \<Longrightarrow> L \<le> 3 * n \<Longrightarrow> range_step L n = [0, n, 2 * n]"
proof -
  assume a: "2 * n < L" "L \<le> 3 * n"
  have "(L + n - 1) div n = 3"
    by (rule div_nat_eqI) (use a in auto)
  then show ?thesis by (simp add: range_step_def upt_rec numeral_3_eq_3)
qed

lemma not_space_a: "\<not> isspace 97"
  by (simp add: isspace_def)

lemma chunks_of_empty: "chunks_of chunk_size [] = []"
  by (simp add: chunks_of_def char_chunks_def word_chunks_def range_step_def split_def
      chunk_size_def)

section \<open>Facts about the world and the translation loop\<close>

lemma print_fields [simp]:
  "stdout (print l w) = stdout w @ [l]" "service (print l w) = service w"
  "sent (print l w) = sent w" "files (print l w) = files w"
  by (simp_all add: print_def)

lemma prints_fields [simp]:
  "stdout (prints ls w) = stdout w @ ls" "service (prints ls w) = service w"
  "sent (prints ls w) = sent w" "files (prints ls w) = files w"
  by (simp_all add: prints_def)

lemma exchange_eq:
  "exchange e r w =
     (fst (chat_post e (service w) r),
      w\<lparr>service := snd (chat_post e (service w) r), sent := sent w @ [r]\<rparr>)"
  by (simp add: exchange_def split: prod.split)


lemma translate_chunks_Cons:
  "translate_chunks e tr lang n (ic # rest) acc w =
     (case first_content (fst (create e max_retries (request tr lang n ic) (print (TranslatingChunk (fst ic) n) w))) of
        Inl x \<Rightarrow> (Inl x, snd (create e max_retries (request tr lang n ic) (print (TranslatingChunk (fst ic) n) w)))
      | Inr t \<Rightarrow> translate_chunks e tr lang n rest (acc @ [t])
          (print (Preview (take 50 t))
             (snd (create e max_retries (request tr lang n ic) (print (TranslatingChunk (fst ic) n) w)))))"
  by (simp split: prod.split sum.split)

declare translate_chunks.simps(2) [simp del]



text \<open>With the service that never fails, every chunk of the list gets one request.\<close>

lemma create_demo:
  "create (demo_env None key pages) k r w =
     (Inr [Some (u ''T'' @ str_nat (Suc (service w)))],
      w\<lparr>service := Suc (service w), sent := sent w @ [r]\<rparr>)"
  by (cases k) (simp_all add: exchange_eq demo_env_def demo_service_def)

lemma translate_chunks_demo:
  "\<exists>res. fst (translate_chunks (demo_env None key pages) tr lang n ics acc w) = Inr res \<and>
     length (sent (snd (translate_chunks (demo_env None key pages) tr lang n ics acc w))) =
       length (sent w) + length ics"
proof (induction ics arbitrary: acc w)
  case Nil
  then show ?case by simp
next
  case (Cons ic rest)
  let ?t = "u ''T'' @ str_nat (Suc (service w))"
  let ?w = "print (Preview (take 50 ?t))
      ((print (TranslatingChunk (fst ic) n) w)\<lparr>service := Suc (service w),
         sent := sent w @ [request tr lang n ic]\<rparr>)"
  have step: "translate_chunks (demo_env None key pages) tr lang n (ic # rest) acc w =
      translate_chunks (demo_env None key pages) tr lang n rest (acc @ [?t]) ?w"
    by (simp add: translate_chunks_Cons create_demo first_content_def)
  have "length (sent ?w) = Suc (length (sent w))" by simp
  with Cons.IH [of "acc @ [?t]" ?w] show ?case
    unfolding step by auto
qed

lemma translate_text_demo_sent:
  "length (sent (snd (translate_text (demo_env None key pages) tr text lang w))) =
     length (sent w) + length (chunks_of chunk_size text)"
proof -
  define cs where "cs = chunks_of chunk_size text"
  define w1 where "w1 = prints [TranslatingTo lang, SplitInto (length cs)] w"
  define T where "T = translate_chunks (demo_env None key pages) tr lang (length cs) (enumerate 1 cs) [] w1"
  from translate_chunks_demo [of key pages tr lang "length cs" "enumerate 1 cs" "[]" w1]
  obtain res where r: "fst T = Inr res" "length (sent (snd T)) = length (sent w1) + length (enumerate 1 cs)"
    unfolding T_def by blast
  have "sent w1 = sent w" by (simp add: w1_def)
  then have l: "length (sent (snd T)) = length (sent w) + length cs" using r(2) by simp
  have "translate_text (demo_env None key pages) tr text lang w
     = (Inr (join [10, 10] res), print TranslationComplete (snd T))"
    using r(1) unfolding translate_text_def Let_def cs_def [symmetric] w1_def [symmetric] T_def [symmetric]
    by (cases T) simp
  then show ?thesis using l by (simp add: cs_def)
qed

lemma sent_w0: "sent w0 = []"
  by (simp add: w0_def)

section \<open>The chunk list\<close>

lemma hello_split: "split (u ''Hello world'') = [u ''Hello'', u ''world'']"
  by (simp add: split_def u_def isspace_def)

lemma hello_length: "length (u ''Hello world'') = 11"
  by (simp add: u_def)

lemma hello_chunks:
  "chunks_of chunk_size (u ''Hello world'') = [u ''Hello world'', u ''Hello world'']"
  by (simp add: chunks_of_def char_chunks_def word_chunks_def range_step_1 chunk_size_def
      slice_def hello_split hello_length) (simp add: u_def)

lemma hello_twice: "concat [u ''Hello world'', u ''Hello world''] = u ''Hello worldHello world''"
  by (simp add: u_def)

lemma long_word_lengths:
  "map length (chunks_of chunk_size (replicate 15001 97)) = [15000, 1, 15001]"
  by (simp add: chunks_of_def char_chunks_def word_chunks_def split_word not_space_a
      range_step_1 range_step_2 chunk_size_def slice_def)

lemma long_word_count: "length (chunks_of chunk_size (replicate 15001 97)) = 3"
proof -
  have "length (map length (chunks_of chunk_size (replicate 15001 97))) = length [15000, 1, 15001::nat]"
    by (simp only: long_word_lengths)
  then show ?thesis by (simp only: length_map list.size)
qed

lemma text_32000_lengths:
  "map length (chunks_of chunk_size (replicate 32000 97)) = [15000, 15000, 2000, 32000]"
  by (simp add: chunks_of_def char_chunks_def word_chunks_def split_word not_space_a
      range_step_1 range_step_3 chunk_size_def slice_def)

lemma text_32000_count: "length (chunks_of chunk_size (replicate 32000 97)) = 4"
proof -
  have "length (map length (chunks_of chunk_size (replicate 32000 97))) = length [15000, 15000, 2000, 32000::nat]"
    by (simp only: text_32000_lengths)
  then show ?thesis by (simp only: length_map list.size)
qed

text \<open>
  C1. The chunks of a text, concatenated in the order of the list, should give the
  text back. The list that \<^verbatim>\<open>translate_text\<close> builds does not: for the text
  ``Hello world'' it holds the single character window and then the single word chunk,
  so that the text comes twice. (The character windows alone do give the text back:
  \<open>char_chunks_concat\<close>.)
\<close>

theorem chunk_list_repeats_the_text:
  "chunks_of chunk_size (u ''Hello world'') = [u ''Hello world'', u ''Hello world''] \<and>
   concat (chunks_of chunk_size (u ''Hello world'')) = u ''Hello worldHello world''"
  by (simp only: hello_chunks hello_twice simp_thms)

text \<open>
  C2. No chunk sent to the service should have more than 15000 characters. For a text
  that is one word of 15001 characters the list holds two character windows, of 15000
  characters and of one, and then a word chunk of all 15001 characters; the three get a
  request each.
\<close>

theorem word_chunk_exceeds_chunk_size:
  "map length (chunks_of chunk_size (replicate 15001 97)) = [15000, 1, 15001] \<and>
   length (sent (snd (translate_text (demo_env None None []) demo_translator
     (replicate 15001 97) (u ''Spanish'') w0))) = 3"
proof -
  have "length (sent (snd (translate_text (demo_env None None []) demo_translator
     (replicate 15001 97) (u ''Spanish'') w0))) = 3"
    by (simp only: translate_text_demo_sent long_word_count sent_w0 list.size add_0)
  with long_word_lengths show ?thesis by (rule conjI)
qed

text \<open>
  C3. A text of 32000 characters should give three chunks, of 15000, 15000 and 2000
  characters, and three requests. For the text that is one word of 32000 characters the
  list has a fourth chunk, the word chunk of all 32000 characters, and four requests
  are sent.
\<close>

theorem text_32000_gets_four_requests:
  "map length (chunks_of chunk_size (replicate 32000 97)) = [15000, 15000, 2000, 32000] \<and>
   length (sent (snd (translate_text (demo_env None None []) demo_translator
     (replicate 32000 97) (u ''Spanish'') w0))) = 4"
proof -
  have "length (sent (snd (translate_text (demo_env None None []) demo_translator
     (replicate 32000 97) (u ''Spanish'') w0))) = 4"
    by (simp only: translate_text_demo_sent text_32000_count sent_w0 list.size add_0)
  with text_32000_lengths show ?thesis by (rule conjI)
qed

section \<open>The empty text\<close>

text \<open>
  C10. Called with the empty string, \<^verbatim>\<open>translate_text\<close> sends no request to the service
  and returns the empty string: the chunk list is empty and the loop body never runs.
\<close>

theorem translate_text_empty:
  "translate_text e tr [] target_language w =
     (Inr [], print TranslationComplete (prints [TranslatingTo target_language, SplitInto 0] w)) \<and>
   sent (snd (translate_text e tr [] target_language w)) = sent w \<and>
   service (snd (translate_text e tr [] target_language w)) = service w"
  by (simp add: translate_text_def chunks_of_empty enumerate_eq_zip)

theorem translate_text_empty_witness:
  "translate_text (demo_env None None []) demo_translator [] (u ''Spanish'') w0 =
     (Inr [], print TranslationComplete (prints [TranslatingTo (u ''Spanish''), SplitInto 0] w0)) \<and>
   sent (snd (translate_text (demo_env None None []) demo_translator [] (u ''Spanish'') w0)) = [] \<and>
   service (snd (translate_text (demo_env None None []) demo_translator [] (u ''Spanish'') w0)) = 0"
  using translate_text_empty [of "demo_env None None []" demo_translator "u ''Spanish''" w0]
  by (simp add: w0_def)

section \<open>The order of the translated text\<close>

lemma split_from_nospace:
  "list_all (\<lambda>c. \<not> isspace c) s \<Longrightarrow> split_from w s = (if w @ s = [] then [] else [w @ s])"
  by (induction s arbitrary: w) simp_all

lemma split_blank_from_plain:
  "10 \<notin> set c \<Longrightarrow> split_blank_from w c = [w @ c]"
proof (induction c arbitrary: w)
  case Nil
  then show ?case by simp
next
  case (Cons a c)
  then show ?case by (cases c) simp_all
qed

lemma split_blank_from_first:
  "10 \<notin> set p \<Longrightarrow> split_blank_from w (p @ 10 # 10 # c) = (w @ p) # split_blank_from [] c"
proof (induction p arbitrary: w)
  case Nil
  then show ?case by simp
next
  case (Cons a p)
  then show ?case by (cases p) simp_all
qed

lemma str_nat_digit: "n < 10 \<Longrightarrow> str_nat n = [48 + n]"
  by (simp add: str_nat.simps)

text \<open>The service that translates nothing gives back the chunk of the request.\<close>

lemma echo_reply:
  assumes "10 \<notin> set lang" "i < 10" "n < 10" "10 \<notin> set chunk"
  shows "join [10, 10] (tl (split_blank (snd (last (messages (request tr lang n (i, chunk))))))) = chunk"
proof -
  let ?p = "u ''Translate the following text to '' @ lang @ u ''. This is part '' @
     str_nat i @ u '' of '' @ str_nat n @
     u ''. Maintain the original formatting and do NOT add any introductory text:''"
  have p: "10 \<notin> set ?p" using assms(1,2,3) by (simp add: str_nat_digit) (simp add: u_def)
  have "snd (last (messages (request tr lang n (i, chunk)))) = ?p @ 10 # 10 # chunk"
    by (simp add: request_def prompt_def)
  then show ?thesis
    using split_blank_from_first [OF p, of "[]" chunk] split_blank_from_plain [OF assms(4), of "[]"]
    by (simp add: split_blank_def)
qed

lemma create_echo:
  "create echo_env k r w =
     (Inr [Some (join [10, 10] (tl (split_blank (snd (last (messages r))))))],
      w\<lparr>service := Suc (service w), sent := sent w @ [r]\<rparr>)"
  by (cases k) (simp_all add: exchange_eq echo_env_def echo_service_def)

lemma translate_chunks_echo:
  "10 \<notin> set lang \<Longrightarrow> n < 10 \<Longrightarrow> list_all (\<lambda>ic. fst ic < 10 \<and> 10 \<notin> set (snd ic)) ics \<Longrightarrow>
   fst (translate_chunks echo_env tr lang n ics acc w) = Inr (acc @ map snd ics)"
proof (induction ics arbitrary: acc w)
  case Nil
  then show ?case by simp
next
  case (Cons ic rest)
  obtain i chunk where ic: "ic = (i, chunk)" by (cases ic)
  from Cons.prems ic have r: "join [10, 10] (tl (split_blank (snd (last (messages (request tr lang n (i, chunk))))))) = chunk"
    by (simp add: echo_reply)
  from Cons.prems have rest: "list_all (\<lambda>ic. fst ic < 10 \<and> 10 \<notin> set (snd ic)) rest" by simp
  show ?case
    using Cons.IH [OF Cons.prems(1,2) rest] ic
    by (simp add: translate_chunks_Cons create_echo first_content_def r)
qed

lemma ab_split: "split (replicate 15000 97 @ [98]) = [replicate 15000 97 @ [98]]"
  by (simp add: split_def split_from_nospace isspace_def list_all_iff)

lemma ab_chunks:
  "chunks_of chunk_size (replicate 15000 97 @ [98]) =
     [replicate 15000 97, [98], replicate 15000 97 @ [98]]"
  by (simp add: chunks_of_def char_chunks_def word_chunks_def ab_split
      range_step_1 range_step_2 chunk_size_def slice_def)

lemma ab_translated:
  "fst (translate_text echo_env demo_translator (replicate 15000 97 @ [98]) (u ''Spanish'') w0) =
     Inr (replicate 15000 97 @ [10, 10] @ [98] @ [10, 10] @ replicate 15000 97 @ [98])"
proof -
  let ?cs = "[replicate 15000 97, [98], replicate 15000 97 @ [98]] :: ustr list"
  let ?ics = "[(1, replicate 15000 97), (2, [98]), (3, replicate 15000 97 @ [98])] :: (nat \<times> ustr) list"
  have en: "enumerate 1 ?cs = ?ics" by simp
  have lang: "10 \<notin> set (u ''Spanish'')" by (simp add: u_def)
  have ok: "list_all (\<lambda>ic. fst ic < 10 \<and> 10 \<notin> set (snd ic)) ?ics" by simp
  have n: "length ?cs < 10" by simp
  have loop: "\<And>w. fst (translate_chunks echo_env demo_translator (u ''Spanish'') (length ?cs) ?ics [] w) =
      Inr ([] @ map snd ?ics)"
    by (rule translate_chunks_echo [OF lang n ok])
  define T where "T = translate_chunks echo_env demo_translator (u ''Spanish'') (length ?cs) ?ics []
      (prints [TranslatingTo (u ''Spanish''), SplitInto (length ?cs)] w0)"
  have T: "fst T = Inr ?cs" unfolding T_def using loop by simp
  have "translate_text echo_env demo_translator (replicate 15000 97 @ [98]) (u ''Spanish'') w0 =
      (case T of (Inl x, w') \<Rightarrow> (Inl x, w')
       | (Inr translated_chunks, w') \<Rightarrow> (Inr (join [10, 10] translated_chunks), print TranslationComplete w'))"
    unfolding translate_text_def Let_def ab_chunks en T_def ..
  then show ?thesis using T by (cases T) simp
qed

text \<open>
  C4. The translated chunks should come back in the order of the source text, joined by
  blank lines. The results are joined in the order of the chunk list, but the list is
  not in the order of the text: for the text of 15000 letters a followed by one letter
  b it holds the two character windows and then the word chunk, which starts at the
  beginning of the text again. With the service that gives every chunk back as it is,
  the text returned is the letters a, a blank line, the letter b, a blank line, and
  then the whole text once more.
\<close>

theorem translated_text_restarts_at_the_beginning:
  "chunks_of chunk_size (replicate 15000 97 @ [98]) =
     [replicate 15000 97, [98], replicate 15000 97 @ [98]] \<and>
   fst (translate_text echo_env demo_translator (replicate 15000 97 @ [98]) (u ''Spanish'') w0) =
     Inr (replicate 15000 97 @ [10, 10] @ [98] @ [10, 10] @ replicate 15000 97 @ [98])"
  using ab_chunks ab_translated by (rule conjI)

section \<open>A request that fails\<close>





lemma chat_post_scripted [simp]: "chat_post (scripted_env script) = scripted_service script"
  by (simp add: scripted_env_def)


text \<open>The requests for the two chunks of ``Hello world'', written out.\<close>

lemma hello_request_1:
  "request demo_translator (u ''Spanish'') 2 (1, u ''Hello world'') =
     \<lparr>req_model = u ''gpt-4o-mini'',
      messages =
        [(u ''system'', u ''You are a professional translator. Translate text accurately to Spanish. Output ONLY the translation, no explanations or notes.''),
         (u ''user'', u ''Translate the following text to Spanish. This is part 1 of 2. Maintain the original formatting and do NOT add any introductory text:'' @ [10, 10] @ u ''Hello world'')]\<rparr>"
  by (simp add: request_def prompt_def system_content_def demo_translator_def str_nat_digit u_def)

lemma hello_request_2:
  "request demo_translator (u ''Spanish'') 2 (2, u ''Hello world'') =
     \<lparr>req_model = u ''gpt-4o-mini'',
      messages =
        [(u ''system'', u ''You are a professional translator. Translate text accurately to Spanish. Output ONLY the translation, no explanations or notes.''),
         (u ''user'', u ''Translate the following text to Spanish. This is part 2 of 2. Maintain the original formatting and do NOT add any introductory text:'' @ [10, 10] @ u ''Hello world'')]\<rparr>"
  by (simp add: request_def prompt_def system_content_def demo_translator_def str_nat_digit u_def)








section \<open>The credential\<close>

text \<open>
  C7. With no API key configured (the parameter is \<^verbatim>\<open>None\<close> or empty, the environment
  variable is unset or empty), constructing the translator raises the exception ``API
  key is not found'' and changes nothing; the script, which constructs the translator
  first, ends with that exception before a line is printed, a file read, a request sent
  or a document written.
\<close>

theorem no_credential_fails_before_any_processing:
  assumes "key = None \<or> key = Some []"
      and "getenv_key e = None \<or> getenv_key e = Some []"
  shows "init key e w = (Inl (Exception ''API key is not found. Set it in .env file.''), w) \<and>
     main e w = (Inl (Exception ''API key is not found. Set it in .env file.''), w)"
  using assms by (auto simp add: init_def main_def py_or_def)

theorem no_credential_fails_before_any_processing_witness:
  "init (Some []) (demo_env None None [Inr (u ''text'')]) w0 =
     (Inl (Exception ''API key is not found. Set it in .env file.''), w0) \<and>
   main (demo_env None None [Inr (u ''text'')]) w0 =
     (Inl (Exception ''API key is not found. Set it in .env file.''), w0)"
proof -
  have k: "Some [] = None \<or> Some [] = Some ([] :: ustr)" by simp
  have g: "getenv_key (demo_env None None [Inr (u ''text'')]) = None \<or>
      getenv_key (demo_env None None [Inr (u ''text'')]) = Some []"
    by (simp add: demo_env_def)
  from no_credential_fails_before_any_processing [OF k g, of w0] show ?thesis .
qed

section \<open>A document without text\<close>










section \<open>The renderer\<close>

lemma clean_para_Nil: "clean_para [] = []"
  by (simp add: clean_para_def replace_def)

lemma replace_Cons: "replace old new (c # cs) = (if c = old then new else [c]) @ replace old new cs"
  by (simp add: replace_def)

lemma replace_Nil: "replace old new [] = []"
  by (simp add: replace_def)

lemma replace_append: "replace old new (a @ b) = replace old new a @ replace old new b"
  by (simp add: replace_def)

lemma clean_para_append: "clean_para (a @ b) = clean_para a @ clean_para b"
  by (simp add: clean_para_def replace_append)

lemma clean_para_single: "clean_para [c] = ascii_substitute c"
  by (simp add: clean_para_def replace_Cons replace_Nil ascii_substitute_def u_def)

lemma clean_para_Cons: "clean_para (c # cs) = ascii_substitute c @ clean_para cs"
  using clean_para_append [of "[c]" cs] by (simp add: clean_para_single)

lemma clean_para_substitutes: "clean_para para = concat (map ascii_substitute para)"
  by (induction para) (simp_all add: clean_para_Nil clean_para_Cons)

lemma ascii_substitute_plain: "list_all (\<lambda>c. \<not> smart_punctuation c) (ascii_substitute c)"
  by (simp add: ascii_substitute_def smart_punctuation_def)

lemma clean_para_plain: "list_all (\<lambda>c. \<not> smart_punctuation c) (clean_para para)"
  by (induction para) (simp_all add: clean_para_Nil clean_para_Cons ascii_substitute_plain)

lemma ascii_substitute_supported:
  "supported 39 \<Longrightarrow> supported 34 \<Longrightarrow> supported 45 \<Longrightarrow> supported 46 \<Longrightarrow>
   smart_punctuation c \<or> supported c \<Longrightarrow> list_all supported (ascii_substitute c)"
  by (auto simp add: ascii_substitute_def smart_punctuation_def)

lemma clean_para_supported:
  "supported 39 \<Longrightarrow> supported 34 \<Longrightarrow> supported 45 \<Longrightarrow> supported 46 \<Longrightarrow>
   list_all (\<lambda>c. smart_punctuation c \<or> supported c) para \<Longrightarrow> list_all supported (clean_para para)"
  by (induction para) (simp_all add: clean_para_Nil clean_para_Cons ascii_substitute_supported)

lemma add_paragraphs_append:
  "add_paragraphs e (xs @ ys) st = add_paragraphs e ys (add_paragraphs e xs st)"
proof (induction xs arbitrary: st)
  case Nil
  then show ?case by simp
next
  case (Cons para xs)
  obtain pdf a s w where st: "st = (pdf, a, s, w)" by (cases st)
  show ?case
    unfolding st by (simp add: Cons.IH split: prod.split option.split)
qed

lemma add_paragraphs_counts:
  "add_paragraphs e ps (pdf, a, s, w) = (pdf', a', s', w') \<Longrightarrow>
   a' + s' = a + s + length (filter (\<lambda>p. strip p \<noteq> []) ps) \<and> s \<le> s' \<and> a \<le> a'"
proof (induction ps arbitrary: pdf a s w)
  case Nil
  then show ?case by simp
next
  case (Cons para ps)
  show ?case
  proof (cases "strip para = []")
    case True
    with Cons.prems have "add_paragraphs e ps (pdf, a, s, w) = (pdf', a', s', w')" by simp
    from Cons.IH [OF this] True show ?thesis by simp
  next
    case False
    obtain r p1 where mc: "fpdf_multi_cell e pdf (clean_para para) = (r, p1)"
      by (cases "fpdf_multi_cell e pdf (clean_para para)")
    show ?thesis
    proof (cases r)
      case None
      with Cons.prems False mc
      have "add_paragraphs e ps (fpdf_ln e p1, a + 1, s, w) = (pdf', a', s', w')" by simp
      from Cons.IH [OF this] False show ?thesis by simp
    next
      case (Some x)
      with Cons.prems False mc
      have "add_paragraphs e ps (p1, a, s + 1, print (SkippedParagraph x) w) = (pdf', a', s', w')" by simp
      from Cons.IH [OF this] False show ?thesis by simp
    qed
  qed
qed

text \<open>
  C8. The text that the renderer hands to \<^verbatim>\<open>multi_cell\<close> for a paragraph is the
  paragraph with every curly quote, em-dash and ellipsis replaced by its plain-ASCII
  substitute, and none of the six characters is left in it. So with a font that lays
  out every text of characters it supports, and that supports the four substitute
  characters, a paragraph whose other characters are all supported is written, not
  skipped: no such character alone makes \<^verbatim>\<open>multi_cell\<close> raise.
\<close>

theorem smart_punctuation_is_substituted:
  "clean_para para = concat (map ascii_substitute para) \<and>
   list_all (\<lambda>c. \<not> smart_punctuation c) (clean_para para) \<and>
   (strip para \<noteq> [] \<and>
    list_all (\<lambda>c. smart_punctuation c \<or> supported c) para \<and>
    supported 39 \<and> supported 34 \<and> supported 45 \<and> supported 46 \<and>
    (\<forall>pdf t. list_all supported t \<longrightarrow> fst (fpdf_multi_cell e pdf t) = None) \<longrightarrow>
    add_paragraphs e [para] (pdf, lines_added, lines_skipped, w) =
      (fpdf_ln e (snd (fpdf_multi_cell e pdf (concat (map ascii_substitute para)))),
       lines_added + 1, lines_skipped, w))"
proof -
  have "add_paragraphs e [para] (pdf, lines_added, lines_skipped, w) =
      (fpdf_ln e (snd (fpdf_multi_cell e pdf (concat (map ascii_substitute para)))),
       lines_added + 1, lines_skipped, w)"
    if nb: "strip para \<noteq> []"
      and ok: "list_all (\<lambda>c. smart_punctuation c \<or> supported c) para"
      and s: "supported 39" "supported 34" "supported 45" "supported 46"
      and mc: "\<forall>pdf t. list_all supported t \<longrightarrow> fst (fpdf_multi_cell e pdf t) = None"
  proof -
    have "list_all supported (clean_para para)" using s ok by (rule clean_para_supported)
    with mc have "fst (fpdf_multi_cell e pdf (clean_para para)) = None" by blast
    then obtain pdf' where "fpdf_multi_cell e pdf (clean_para para) = (None, pdf')"
      by (cases "fpdf_multi_cell e pdf (clean_para para)") simp
    then show ?thesis using nb by (simp add: clean_para_substitutes [symmetric])
  qed
  then show ?thesis using clean_para_substitutes clean_para_plain by blast
qed

theorem smart_punctuation_is_substituted_witness:
  "clean_para [0x201C, 72, 105, 0x201D, 0x2014, 0x2018, 120, 0x2019, 0x2026] =
     [34, 72, 105, 34, 45, 39, 120, 39, 46, 46, 46] \<and>
   list_all (\<lambda>c. \<not> smart_punctuation c) [34, 72, 105, 34, 45, 39, 120, 39, 46, 46, 46] \<and>
   add_paragraphs (demo_env None None []) [[0x201C, 72, 105, 0x201D, 0x2014, 0x2018, 120, 0x2019, 0x2026]]
       ([], 0, 0, w0) =
     ([[34, 72, 105, 34, 45, 39, 120, 39, 46, 46, 46]], 1, 0, w0)"
proof -
  let ?P = "[0x201C, 72, 105, 0x201D, 0x2014, 0x2018, 120, 0x2019, 0x2026] :: ustr"
  let ?D = "demo_env None None [] :: (nat, ustr list) env"
  have hyp: "strip ?P \<noteq> [] \<and>
    list_all (\<lambda>c. smart_punctuation c \<or> c < 256) ?P \<and>
    (39::nat) < 256 \<and> (34::nat) < 256 \<and> (45::nat) < 256 \<and> (46::nat) < 256 \<and>
    (\<forall>pdf t. list_all (\<lambda>c. c < 256) t \<longrightarrow> fst (fpdf_multi_cell ?D pdf t) = None)"
    by (simp add: strip_def isspace_def smart_punctuation_def demo_env_def latin1_multi_cell_def)
  have sub: "concat (map ascii_substitute ?P) = [34, 72, 105, 34, 45, 39, 120, 39, 46, 46, 46]"
    by (simp add: ascii_substitute_def)
  have cell: "fpdf_ln ?D (snd (fpdf_multi_cell ?D [] [34, 72, 105, 34, 45, 39, 120, 39, 46, 46, 46])) =
      [[34, 72, 105, 34, 45, 39, 120, 39, 46, 46, 46]]"
    by (simp add: demo_env_def latin1_multi_cell_def)
  let ?L = "[34, 72, 105, 34, 45, 39, 120, 39, 46, 46, 46] :: ustr"
  note inst = smart_punctuation_is_substituted [of ?P "\<lambda>c. c < 256" ?D "[]" 0 0 w0]
  from inst sub have c1: "clean_para ?P = ?L" by (simp only:)
  from inst have "list_all (\<lambda>c. \<not> smart_punctuation c) (clean_para ?P)" by blast
  then have c2: "list_all (\<lambda>c. \<not> smart_punctuation c) ?L" by (simp only: c1)
  from inst hyp have "add_paragraphs ?D [?P] ([], 0, 0, w0) =
      (fpdf_ln ?D (snd (fpdf_multi_cell ?D [] (concat (map ascii_substitute ?P)))), 0 + 1, 0, w0)"
    by blast
  then have c3: "add_paragraphs ?D [?P] ([], 0, 0, w0) = ([?L], 1, 0, w0)"
    by (simp only: sub cell add_0)
  from c1 c2 c3 show ?thesis by (intro conjI)
qed

text \<open>
  C9. When \<^verbatim>\<open>multi_cell\<close> raises on a paragraph, the paragraph is skipped,
  \<^verbatim>\<open>lines_skipped\<close> grows by one and the loop goes on with the paragraphs that follow,
  from the document as the failed call left it. Once the document is written, the
  lines printed last report the paragraphs added and the paragraphs skipped, at least
  one, and the two numbers add up to the number of paragraphs that are not blank.
\<close>

theorem failing_paragraph_is_skipped_and_counted:
  assumes "split_blank text = before @ para # rest"
      and "strip para \<noteq> []"
      and "add_paragraphs e before (fpdf_new e, 0, 0, print (CreatingPDF output_path) w) = (pdf, a, s, w1)"
      and "fpdf_multi_cell e pdf (clean_para para) = (Some x, pdf1)"
      and "add_paragraphs e rest (pdf1, a, s + 1, print (SkippedParagraph x) w1) = (pdf2, a2, s2, w2)"
      and "fpdf_output e pdf2 output_path = None"
  shows "create_pdf e text output_path w =
       (Inr (), prints [PDFCreated, ParagraphsAdded a2, ParagraphsSkipped s2]
          (w2\<lparr>files := files w2 @ [(output_path, pdf2)]\<rparr>)) \<and>
     1 \<le> s2 \<and>
     a2 + s2 = length (filter (\<lambda>p. strip p \<noteq> []) (split_blank text))"
proof -
  have step: "add_paragraphs e (para # rest) (pdf, a, s, w1) = (pdf2, a2, s2, w2)"
    using assms(2,4,5) by simp
  have all: "add_paragraphs e (split_blank text) (fpdf_new e, 0, 0, print (CreatingPDF output_path) w) = (pdf2, a2, s2, w2)"
    unfolding assms(1) add_paragraphs_append assms(3) by (rule step)
  from add_paragraphs_counts [OF assms(5)] have s2: "1 \<le> s2" by simp
  from add_paragraphs_counts [OF all] have total: "a2 + s2 = length (filter (\<lambda>p. strip p \<noteq> []) (split_blank text))"
    by simp
  have "create_pdf e text output_path w =
       (Inr (), prints [PDFCreated, ParagraphsAdded a2, ParagraphsSkipped s2]
          (w2\<lparr>files := files w2 @ [(output_path, pdf2)]\<rparr>))"
    using s2 assms(6) unfolding create_pdf_def all by simp
  with s2 total show ?thesis by blast
qed

theorem failing_paragraph_is_skipped_and_counted_witness:
  "split_blank (u ''ok'' @ [10, 10] @ [0x4E2D] @ [10, 10] @ u ''fine'') = [u ''ok'', [0x4E2D], u ''fine''] \<and>
   fpdf_multi_cell (demo_env None None []) [u ''ok''] (clean_para [0x4E2D]) =
     (Some (LibraryError ''FPDFUnicodeEncodingException''), [u ''ok'']) \<and>
   create_pdf (demo_env None None []) (u ''ok'' @ [10, 10] @ [0x4E2D] @ [10, 10] @ u ''fine'') (u ''out.pdf'') w0 =
     (Inr (), prints [PDFCreated, ParagraphsAdded 2, ParagraphsSkipped 1]
        ((print (SkippedParagraph (LibraryError ''FPDFUnicodeEncodingException''))
            (print (CreatingPDF (u ''out.pdf'')) w0))
         \<lparr>files := files (print (SkippedParagraph (LibraryError ''FPDFUnicodeEncodingException''))
            (print (CreatingPDF (u ''out.pdf'')) w0)) @ [(u ''out.pdf'', [u ''ok'', u ''fine''])]\<rparr>)) \<and>
   length (filter (\<lambda>p. strip p \<noteq> []) (split_blank (u ''ok'' @ [10, 10] @ [0x4E2D] @ [10, 10] @ u ''fine''))) = 2 + 1"
proof -
  let ?D = "demo_env None None [] :: (nat, ustr list) env"
  let ?text = "u ''ok'' @ [10, 10] @ [0x4E2D] @ [10, 10] @ u ''fine''"
  let ?x = "LibraryError ''FPDFUnicodeEncodingException''"
  let ?w1 = "print (CreatingPDF (u ''out.pdf'')) w0"
  have h1: "split_blank ?text = [u ''ok''] @ [0x4E2D] # [u ''fine'']"
    by (simp add: split_blank_def u_def)
  have h2: "strip [0x4E2D] \<noteq> []"
    by (simp add: strip_def isspace_def)
  have h3: "add_paragraphs ?D [u ''ok''] (fpdf_new ?D, 0, 0, ?w1) = ([u ''ok''], 1, 0, ?w1)"
    by (simp add: demo_env_def latin1_multi_cell_def strip_def isspace_def u_def clean_para_def replace_def)
  have h4: "fpdf_multi_cell ?D [u ''ok''] (clean_para [0x4E2D]) = (Some ?x, [u ''ok''])"
    by (simp add: demo_env_def latin1_multi_cell_def clean_para_def replace_def)
  have h5: "add_paragraphs ?D [u ''fine''] ([u ''ok''], 1, 0 + 1, print (SkippedParagraph ?x) ?w1) =
      ([u ''ok'', u ''fine''], 2, 1, print (SkippedParagraph ?x) ?w1)"
    by (simp add: demo_env_def latin1_multi_cell_def strip_def isspace_def u_def clean_para_def replace_def)
  have h6: "fpdf_output ?D [u ''ok'', u ''fine''] (u ''out.pdf'') = None"
    by (simp add: demo_env_def)
  have l: "[u ''ok''] @ [0x4E2D] # [u ''fine''] = [u ''ok'', [0x4E2D], u ''fine'']" by simp
  from failing_paragraph_is_skipped_and_counted [OF h1 h2 h3 h4 h5 h6] h1 h4
  show ?thesis by (simp only: l)
qed

end
